theory Spec2Isabelle
  imports Complex_Main
begin

section \<open>The two-state Metropolis-Hastings demo (w02-04a-mcmc-demo-discrete)\<close>

text \<open>
  The notebook estimates the posterior probability that a coin is loaded. Hypotheses are
  the integer flags \<open>0\<close> (fair) and \<open>1\<close> (loaded). Numbers are modelled as exact reals.
  Division is that of plain Python numbers: \<open>/\<close> raises \<open>ZeroDivisionError\<close> on a zero
  divisor, which is a branch of the model. The notebook's own likelihoods come from
  \<open>scipy.special.comb\<close> and are numpy scalars, for which a zero divisor yields \<open>inf\<close>
  or \<open>nan\<close> with a warning instead; the model is exact for them on non-zero divisors
  only, and the theorems say where they depend on the divisor. The iteration count, the four probabilities and the initial
  state, which the notebook fixes as globals, are parameters here; the process-wide
  random generator is an explicit source of draws with a read position.
\<close>

subsection \<open>Errors and division\<close>

datatype error = ZeroDivisionError

definition truediv :: "real \<Rightarrow> real \<Rightarrow> error + real" where
  "truediv a b = (if b = 0 then Inl ZeroDivisionError else Inr (a / b))"

subsection \<open>The acceptance ratio\<close>

text \<open>
  \<^verbatim>\<open>
  def get_alpha(state, likelihood_fair, prior_fair, likelihood_loaded, prior_loaded):
      """ 0=fair, 1=loaded """
      if state == 1:
          return (likelihood_loaded * prior_loaded) / (likelihood_fair * prior_fair)
      else:
          return (likelihood_fair * prior_fair) / (likelihood_loaded * prior_loaded)
  \<close>
\<close>

definition get_alpha :: "int \<Rightarrow> real \<Rightarrow> real \<Rightarrow> real \<Rightarrow> real \<Rightarrow> error + real" where
  "get_alpha state likelihood_fair prior_fair likelihood_loaded prior_loaded =
     (if state = 1
      then truediv (likelihood_loaded * prior_loaded) (likelihood_fair * prior_fair)
      else truediv (likelihood_fair * prior_fair) (likelihood_loaded * prior_loaded))"

subsection \<open>The notebook's globals\<close>

record params =
  likelihood_if_fair :: real
  prior_fair :: real
  likelihood_if_loaded :: real
  prior_loaded :: real

text \<open>
  \<^verbatim>\<open>
  prior_loaded = 0.6
  prior_fair = 1 - 0.6
  likelihood_if_fair = comb(5, 2) * (0.5)**5
  likelihood_if_loaded = comb(5, 2) * (0.7)**2 * (0.3)**3
  \<close>
\<close>

definition notebook_params :: params where
  "notebook_params =
     \<lparr> likelihood_if_fair = real (5 choose 2) * (5 / 10) ^ 5,
       prior_fair = 1 - 6 / 10,
       likelihood_if_loaded = real (5 choose 2) * (7 / 10) ^ 2 * (3 / 10) ^ 3,
       prior_loaded = 6 / 10 \<rparr>"

text \<open>
  \<^verbatim>\<open>
  denom = (likelihood_if_fair * prior_fair) + (likelihood_if_loaded * prior_loaded)
  posterior_fair = (likelihood_if_fair * prior_fair) / denom
  posterior_loaded = (likelihood_if_loaded * prior_loaded) / denom
  \<close>
\<close>

definition denom :: "params \<Rightarrow> real" where
  "denom p = (likelihood_if_fair p * prior_fair p) + (likelihood_if_loaded p * prior_loaded p)"

definition posterior_fair :: "params \<Rightarrow> error + real" where
  "posterior_fair p = truediv (likelihood_if_fair p * prior_fair p) (denom p)"

definition posterior_loaded :: "params \<Rightarrow> error + real" where
  "posterior_loaded p = truediv (likelihood_if_loaded p * prior_loaded p) (denom p)"

subsection \<open>The random source\<close>

text \<open>
  \<open>np.random.uniform(low=0, high=1)\<close> reads the next draw of the generator and
  advances it. The source is the sequence of its draws and the position of the next one.
\<close>

record random_source =
  draws :: "nat \<Rightarrow> real"
  pos :: nat

definition uniform :: "random_source \<Rightarrow> real \<times> random_source" where
  "uniform g = (draws g (pos g), g\<lparr>pos := Suc (pos g)\<rparr>)"

subsection \<open>The sampling loop\<close>

text \<open>
  \<^verbatim>\<open>
  thetas = []
  state = np.random.randint(low=0, high=2, size=1)[0]    # 0=fair, 1=loaded
  for i in range(int(1e4)):
      proposed_state = 1 if state == 0 else 0
      alpha = get_alpha(proposed_state, likelihood_if_fair, prior_fair,
                        likelihood_if_loaded, prior_loaded)
      if alpha >= 1:
          thetas.append(proposed_state)
      else:
          if np.random.uniform(low=0, high=1) <= alpha:
              thetas.append(proposed_state)
          else:
              thetas.append(state)
              proposed_state = state
      state = proposed_state
  \<close>
  The variables the loop mutates are the fields of \<open>chain\<close>; \<open>iteration\<close> is one
  pass through the loop body.
\<close>

record chain =
  state :: int
  thetas :: "int list"
  rng :: random_source

definition iteration :: "params \<Rightarrow> chain \<Rightarrow> error + chain" where
  "iteration p c =
     (let proposed_state = (if state c = 0 then 1 else 0) in
      case get_alpha proposed_state (likelihood_if_fair p) (prior_fair p)
             (likelihood_if_loaded p) (prior_loaded p) of
        Inl e \<Rightarrow> Inl e
      | Inr alpha \<Rightarrow>
          if alpha \<ge> 1
          then Inr (c\<lparr>thetas := thetas c @ [proposed_state], state := proposed_state\<rparr>)
          else (case uniform (rng c) of (u, g) \<Rightarrow>
                  if u \<le> alpha
                  then Inr (c\<lparr>thetas := thetas c @ [proposed_state], rng := g,
                              state := proposed_state\<rparr>)
                  else Inr (c\<lparr>thetas := thetas c @ [state c], rng := g, state := state c\<rparr>)))"

text \<open>\<open>loop p k\<close> runs the body \<open>k\<close> times; an exception leaves the loop at once.\<close>

fun loop :: "params \<Rightarrow> nat \<Rightarrow> chain \<Rightarrow> error + chain" where
  "loop p 0 c = Inr c"
| "loop p (Suc k) c = (case iteration p c of Inl e \<Rightarrow> Inl e | Inr c' \<Rightarrow> loop p k c')"

text \<open>
  The whole cell, with the iteration count \<open>n\<close> in place of \<open>int(1e4)\<close> and the initial
  state in place of the \<open>randint\<close> draw. \<open>range(n)\<close> is empty for \<open>n \<le> 0\<close>, so the body
  runs \<open>nat n\<close> times.
\<close>

definition mcmc :: "params \<Rightarrow> int \<Rightarrow> int \<Rightarrow> random_source \<Rightarrow> error + chain" where
  "mcmc p n initial_state g = loop p (nat n) \<lparr>state = initial_state, thetas = [], rng = g\<rparr>"

subsection \<open>The stationarity check\<close>

text \<open>
  \<^verbatim>\<open>
  P = np.array([[0.365, 0.635], [1, 0]])
  pi_a = np.array([0.61161, 0.38839])
  pi_P = np.matmul(pi_a, P)
  \<close>
  \<open>np.matmul\<close> of a vector and a matrix: component \<open>j\<close> of the result is the sum over
  \<open>i\<close> of \<open>v[i] * m[i][j]\<close>.
\<close>

definition matmul :: "real list \<Rightarrow> real list list \<Rightarrow> real list" where
  "matmul v m =
     map (\<lambda>j. \<Sum>i\<leftarrow>[0..<length v]. v ! i * m ! i ! j) [0..<length (hd m)]"

definition P :: "real list list" where
  "P = [[365 / 1000, 635 / 1000], [1, 0]]"

definition pi_a :: "real list" where
  "pi_a = [61161 / 100000, 38839 / 100000]"

definition pi_P :: "real list" where
  "pi_P = matmul pi_a P"

subsection \<open>The rule as the specification words it\<close>

text \<open>
  The specification speaks of \<open>likelihood(s)\<close> and \<open>prior(s)\<close> of a hypothesis \<open>s\<close>
  and of "the other hypothesis". On the flags \<open>0\<close> and \<open>1\<close> these are the functions
  below and \<open>1 - s\<close>; the theorems compare them with what \<open>get_alpha\<close> and the loop
  body compute.
\<close>

definition likelihood_of :: "params \<Rightarrow> int \<Rightarrow> real" where
  "likelihood_of p s = (if s = 1 then likelihood_if_loaded p else likelihood_if_fair p)"

definition prior_of :: "params \<Rightarrow> int \<Rightarrow> real" where
  "prior_of p s = (if s = 1 then prior_loaded p else prior_fair p)"

text \<open>
  The probability \<open>T(s \<rightarrow> s')\<close> of a move in one iteration, as the acceptance rule
  implies it: the proposal, the other flag, is accepted with probability \<open>min(1, \<alpha>)\<close>,
  where \<open>\<alpha>\<close> is what \<open>get_alpha\<close> returns for it; otherwise the chain stays.
\<close>

definition transition_prob :: "params \<Rightarrow> int \<Rightarrow> int \<Rightarrow> error + real" where
  "transition_prob p s s' =
     (let proposed_state = (if s = 0 then 1 else 0) in
      case get_alpha proposed_state (likelihood_if_fair p) (prior_fair p)
             (likelihood_if_loaded p) (prior_loaded p) of
        Inl e \<Rightarrow> Inl e
      | Inr alpha \<Rightarrow>
          Inr (if s' = proposed_state then min 1 alpha
               else if s' = s then 1 - min 1 alpha else 0))"

section \<open>Properties\<close>

subsection \<open>The acceptance ratio on arbitrary flags\<close>

text \<open>
  C10. \<open>get_alpha\<close> returns a ratio for every integer state whose denominator product is
  not zero: state \<open>1\<close> divides by the fair product, every other state by the loaded
  product. Every state other than \<open>1\<close>, such as \<open>2\<close> or \<open>-1\<close>, is treated as the fair
  state \<open>0\<close> and yields \<open>(likelihood_fair * prior_fair) / (likelihood_loaded * prior_loaded)\<close>,
  not an error.
\<close>

theorem get_alpha_total:
  "((s = 1 \<longrightarrow> lf * pf \<noteq> 0) \<and> (s \<noteq> 1 \<longrightarrow> ll * pl \<noteq> 0) \<longrightarrow>
      (\<exists>a. get_alpha s lf pf ll pl = Inr a)) \<and>
   (s \<noteq> 1 \<and> ll * pl \<noteq> 0 \<longrightarrow>
      get_alpha s lf pf ll pl = Inr ((lf * pf) / (ll * pl)) \<and>
      get_alpha s lf pf ll pl = get_alpha 0 lf pf ll pl)"
  by (simp add: get_alpha_def truediv_def)

theorem get_alpha_total_witness:
  "(2::int) \<noteq> 1 \<and> (3::real) * 4 \<noteq> 0 \<and>
   get_alpha 2 1 2 3 4 = Inr (1 / 6) \<and>
   get_alpha (- 1) 1 2 3 4 = get_alpha 0 1 2 3 4 \<and>
   (\<exists>a. get_alpha 1 1 2 3 4 = Inr a)"
proof -
  have two: "get_alpha 2 1 2 3 4 = Inr (1 / 6)"
    using get_alpha_total [of 2 1 2 3 4] by simp
  have "(- 1::int) \<noteq> 1 \<and> (3::real) * 4 \<noteq> 0"
    by simp
  with get_alpha_total [of "- 1" 1 2 3 4]
  have neg: "get_alpha (- 1) 1 2 3 4 = get_alpha 0 1 2 3 4"
    by blast
  have one: "\<exists>a. get_alpha 1 1 2 3 4 = Inr a"
    using get_alpha_total [of 1 1 2 3 4] by simp
  from two neg one show ?thesis by simp
qed

subsection \<open>Zero iterations\<close>

text \<open>
  C8. With an iteration count of \<open>0\<close> the loop body never runs: the sampler returns the
  empty trace and raises nothing, whatever the priors, likelihoods, initial state and
  random source.
\<close>

theorem mcmc_zero_iterations:
  "mcmc p 0 s0 g = Inr \<lparr>state = s0, thetas = [], rng = g\<rparr>"
  by (simp add: mcmc_def)


subsection \<open>Auxiliary facts\<close>

text \<open>The values of the notebook's globals, as exact fractions.\<close>

lemma notebook_values:
  "likelihood_if_fair notebook_params = 5 / 16"
  "prior_fair notebook_params = 2 / 5"
  "likelihood_if_loaded notebook_params = 1323 / 10000"
  "prior_loaded notebook_params = 3 / 5"
  by (simp_all add: notebook_params_def choose_two eval_nat_numeral)

text \<open>
  Called with the proposed state, \<open>get_alpha\<close> divides the product of the proposed
  hypothesis by the product of the current one.
\<close>

lemma get_alpha_proposed:
  assumes "s = 0 \<or> s = 1"
    and "likelihood_of p s * prior_of p s \<noteq> 0"
  shows "get_alpha (if s = 0 then 1 else 0) (likelihood_if_fair p) (prior_fair p)
           (likelihood_if_loaded p) (prior_loaded p) =
         Inr ((likelihood_of p (1 - s) * prior_of p (1 - s)) / (likelihood_of p s * prior_of p s))"
  using assms by (auto simp: get_alpha_def truediv_def likelihood_of_def prior_of_def)

text \<open>
  One pass through the body appends the resulting state to the trace; the resulting state
  is the old one or one of the two flags.
\<close>

lemma iteration_records:
  assumes "iteration p c = Inr c'"
  shows "thetas c' = thetas c @ [state c']"
    and "state c' = state c \<or> state c' = 0 \<or> state c' = 1"
  using assms
  by (auto simp: iteration_def Let_def uniform_def split: sum.splits if_splits prod.splits)

lemma loop_split:
  "loop p (j + k) c = (case loop p j c of Inl e \<Rightarrow> Inl e | Inr c1 \<Rightarrow> loop p k c1)"
  by (induction j arbitrary: c) (auto split: sum.splits)

lemma loop_records:
  assumes "loop p k c = Inr c'"
  shows "\<exists>xs. thetas c' = thetas c @ xs \<and> length xs = k \<and> (0 < k \<longrightarrow> last xs = state c')"
  using assms
proof (induction k arbitrary: c)
  case 0
  then show ?case by simp
next
  case (Suc k)
  from Suc.prems obtain c1 where step: "iteration p c = Inr c1" and rest: "loop p k c1 = Inr c'"
    by (auto split: sum.splits)
  from Suc.IH [OF rest] obtain xs where
    xs: "thetas c' = thetas c1 @ xs" "length xs = k" "0 < k \<longrightarrow> last xs = state c'"
    by blast
  have c1: "thetas c1 = thetas c @ [state c1]"
    using step by (rule iteration_records(1))
  have final: "k = 0 \<Longrightarrow> c' = c1"
    using rest by simp
  show ?case
  proof (intro exI [of _ "state c1 # xs"] conjI)
    show "thetas c' = thetas c @ state c1 # xs"
      using xs(1) c1 by simp
    show "length (state c1 # xs) = Suc k"
      using xs(2) by simp
    show "0 < Suc k \<longrightarrow> last (state c1 # xs) = state c'"
      using xs(2,3) final by (cases k) auto
  qed
qed

lemma loop_two_states:
  assumes "loop p k c = Inr c'"
    and "state c = 0 \<or> state c = 1"
    and "set (thetas c) \<subseteq> {0, 1}"
  shows "(state c' = 0 \<or> state c' = 1) \<and> set (thetas c') \<subseteq> {0, 1}"
  using assms
proof (induction k arbitrary: c)
  case 0
  then show ?case by simp
next
  case (Suc k)
  from Suc.prems(1) obtain c1 where step: "iteration p c = Inr c1" and rest: "loop p k c1 = Inr c'"
    by (auto split: sum.splits)
  have s1: "state c1 = 0 \<or> state c1 = 1"
    using iteration_records(2) [OF step] Suc.prems(2) by auto
  have t1: "set (thetas c1) \<subseteq> {0, 1}"
    using iteration_records(1) [OF step] s1 Suc.prems(3) by auto
  show ?case
    by (rule Suc.IH [OF rest s1 t1])
qed

text \<open>Three iterations on the notebook's example, every draw being \<open>0.5\<close>.\<close>

lemma notebook_run_3:
  "mcmc notebook_params 3 0 \<lparr>draws = (\<lambda>i. 1 / 2), pos = 0\<rparr> =
     Inr \<lparr>state = 1, thetas = [1, 0, 1], rng = \<lparr>draws = (\<lambda>i. 1 / 2), pos = 2\<rparr>\<rparr>"
  by (simp add: mcmc_def eval_nat_numeral iteration_def get_alpha_def truediv_def uniform_def
      notebook_values)

subsection \<open>One iteration\<close>

text \<open>
  C1. In every iteration, with the current state \<open>s\<close> one of the two flags (and its
  product \<open>likelihood(s) * prior(s)\<close> not zero, so that the ratio exists), the body
  proposes the other hypothesis \<open>s' = 1 - s\<close>, computes
  \<open>\<alpha> = (likelihood(s') * prior(s')) / (likelihood(s) * prior(s))\<close>, moves to \<open>s'\<close>
  without reading a draw when \<open>\<alpha> \<ge> 1\<close>, and otherwise reads one draw \<open>u\<close> and moves to
  \<open>s'\<close> exactly when \<open>u \<le> \<alpha>\<close>, staying at \<open>s\<close> otherwise. The resulting state is
  appended to the trace.
\<close>

theorem iteration_follows_acceptance_rule:
  assumes "state c = 0 \<or> state c = 1"
    and "likelihood_of p (state c) * prior_of p (state c) \<noteq> 0"
  shows "let s = state c; s' = 1 - s;
             \<alpha> = (likelihood_of p s' * prior_of p s') / (likelihood_of p s * prior_of p s);
             u = draws (rng c) (pos (rng c))
         in \<exists>c'. iteration p c = Inr c' \<and>
              state c' = (if \<alpha> \<ge> 1 \<or> u \<le> \<alpha> then s' else s) \<and>
              thetas c' = thetas c @ [state c'] \<and>
              draws (rng c') = draws (rng c) \<and>
              pos (rng c') = (if \<alpha> \<ge> 1 then pos (rng c) else Suc (pos (rng c)))"
proof -
  have other: "(if state c = 0 then 1 else 0) = 1 - state c"
    using assms(1) by auto
  show ?thesis
    using get_alpha_proposed [OF assms]
    by (auto simp: iteration_def Let_def uniform_def other)
qed

theorem iteration_follows_acceptance_rule_witness:
  "(let c = \<lparr>state = 0, thetas = [], rng = \<lparr>draws = (\<lambda>i. 9 / 10), pos = 0\<rparr>\<rparr>
    in (state c = 0 \<or> state c = 1) \<and>
       likelihood_of notebook_params (state c) * prior_of notebook_params (state c) = 1 / 8 \<and>
       (\<exists>c'. iteration notebook_params c = Inr c' \<and> state c' = 0 \<and> thetas c' = [0] \<and>
             pos (rng c') = 1))"
proof -
  let ?c = "\<lparr>state = 0, thetas = [], rng = \<lparr>draws = (\<lambda>i. 9 / 10), pos = 0\<rparr>\<rparr>"
  have h1: "state ?c = 0 \<or> state ?c = 1" by simp
  have v: "likelihood_of notebook_params (state ?c) * prior_of notebook_params (state ?c) = 1 / 8"
    by (simp add: likelihood_of_def prior_of_def notebook_values)
  have h2: "likelihood_of notebook_params (state ?c) * prior_of notebook_params (state ?c) \<noteq> 0"
    unfolding v by simp
  show ?thesis
    using iteration_follows_acceptance_rule [OF h1 h2] v
    by (auto simp: Let_def likelihood_of_def prior_of_def notebook_values)
qed

subsection \<open>Deterministic acceptance\<close>

text \<open>
  C7, as stated, fails where the current product is zero: with \<open>prior_fair = 0\<close> and
  \<open>likelihood_if_loaded = 0\<close> both products are \<open>0\<close>, so the product of the proposed
  state is at least the current one, yet the division raises and the chain does not move.
\<close>

theorem deterministic_acceptance_counterexample:
  "(let p = \<lparr>likelihood_if_fair = 1 / 2, prior_fair = 0, likelihood_if_loaded = 0, prior_loaded = 1\<rparr>;
        c = \<lparr>state = 0, thetas = [], rng = \<lparr>draws = (\<lambda>i. 0), pos = 0\<rparr>\<rparr>
    in likelihood_of p 1 * prior_of p 1 \<ge> likelihood_of p (state c) * prior_of p (state c) \<and>
       iteration p c = Inl ZeroDivisionError)"
  by (simp add: Let_def likelihood_of_def prior_of_def iteration_def get_alpha_def truediv_def)

text \<open>
  C7, amended. For a current state \<open>s\<close> whose product \<open>likelihood(s) * prior(s)\<close> is
  positive, if \<open>likelihood(s') * prior(s') \<ge> likelihood(s) * prior(s)\<close> then the iteration
  moves to \<open>s'\<close> and records it, whatever the random source \<open>g\<close> holds, and hands the
  source back unread.
\<close>

theorem deterministic_acceptance:
  assumes "state c = 0 \<or> state c = 1"
    and "0 < likelihood_of p (state c) * prior_of p (state c)"
    and "likelihood_of p (1 - state c) * prior_of p (1 - state c)
           \<ge> likelihood_of p (state c) * prior_of p (state c)"
  shows "iteration p (c\<lparr>rng := g\<rparr>) =
           Inr (c\<lparr>thetas := thetas c @ [1 - state c], state := 1 - state c, rng := g\<rparr>)"
proof -
  have other: "(if state c = 0 then 1 else 0) = 1 - state c"
    using assms(1) by auto
  from assms(2) have nz: "likelihood_of p (state c) * prior_of p (state c) \<noteq> 0"
    by (metis order_less_irrefl)
  have "1 \<le> (likelihood_of p (1 - state c) * prior_of p (1 - state c)) /
               (likelihood_of p (state c) * prior_of p (state c))"
    using assms(2,3) by (simp add: le_divide_eq)
  then show ?thesis
    using get_alpha_proposed [OF assms(1) nz]
    by (simp add: iteration_def Let_def other)
qed

theorem deterministic_acceptance_witness:
  "(let c = \<lparr>state = 1, thetas = [0], rng = \<lparr>draws = (\<lambda>i. 9 / 10), pos = 4\<rparr>\<rparr>;
        g = \<lparr>draws = (\<lambda>i. 1 / 10), pos = 7\<rparr>
    in (state c = 0 \<or> state c = 1) \<and>
       0 < likelihood_of notebook_params (state c) * prior_of notebook_params (state c) \<and>
       likelihood_of notebook_params (1 - state c) * prior_of notebook_params (1 - state c)
         \<ge> likelihood_of notebook_params (state c) * prior_of notebook_params (state c) \<and>
       iteration notebook_params (c\<lparr>rng := g\<rparr>) = Inr \<lparr>state = 0, thetas = [0, 0], rng = g\<rparr>)"
proof -
  let ?c = "\<lparr>state = 1, thetas = [0], rng = \<lparr>draws = (\<lambda>i. 9 / 10), pos = 4\<rparr>\<rparr>"
  let ?g = "\<lparr>draws = (\<lambda>i. 1 / 10), pos = 7\<rparr>"
  have h1: "state ?c = 0 \<or> state ?c = 1" by simp
  have h2: "0 < likelihood_of notebook_params (state ?c) * prior_of notebook_params (state ?c)"
    by (simp add: likelihood_of_def prior_of_def notebook_values)
  have h3: "likelihood_of notebook_params (1 - state ?c) * prior_of notebook_params (1 - state ?c)
         \<ge> likelihood_of notebook_params (state ?c) * prior_of notebook_params (state ?c)"
    by (simp add: likelihood_of_def prior_of_def notebook_values)
  show ?thesis
    using deterministic_acceptance [OF h1 h2 h3, of ?g] h1 h2 h3
    by (simp add: Let_def)
qed

subsection \<open>Only two states\<close>

text \<open>
  C4. Started in one of the two flags, the chain is in one of the two flags after any
  number of iterations, for every random source, and every recorded sample is one of
  the two flags. Since this holds for every iteration count, it holds at every step of a
  run.
\<close>

theorem mcmc_two_states:
  assumes "s0 = 0 \<or> s0 = 1"
    and "mcmc p n s0 g = Inr c"
  shows "(state c = 0 \<or> state c = 1) \<and> set (thetas c) \<subseteq> {0, 1}"
  using loop_two_states [of p "nat n" "\<lparr>state = s0, thetas = [], rng = g\<rparr>" c] assms
  by (simp add: mcmc_def)

theorem mcmc_two_states_witness:
  "((0::int) = 0 \<or> (0::int) = 1) \<and>
   mcmc notebook_params 3 0 \<lparr>draws = (\<lambda>i. 1 / 2), pos = 0\<rparr> =
     Inr \<lparr>state = 1, thetas = [1, 0, 1], rng = \<lparr>draws = (\<lambda>i. 1 / 2), pos = 2\<rparr>\<rparr> \<and>
   set [1, 0, 1 :: int] \<subseteq> {0, 1}"
  using mcmc_two_states [OF _ notebook_run_3] notebook_run_3
  by simp

subsection \<open>One sample per iteration\<close>

text \<open>
  C5. A run of \<open>n \<ge> 0\<close> iterations returns a trace of length exactly \<open>n\<close>. After
  iteration \<open>i + 1\<close> the trace holds the first \<open>i + 1\<close> samples of the final trace, one
  per iteration, and the chain's current state, the one the next iteration starts from,
  is the sample just recorded.
\<close>

theorem mcmc_records_each_state:
  assumes "0 \<le> n"
    and "mcmc p n s0 g = Inr c"
  shows "length (thetas c) = nat n \<and>
         (\<forall>i < nat n. \<exists>ci. mcmc p (int (Suc i)) s0 g = Inr ci \<and>
            thetas ci = take (Suc i) (thetas c) \<and> state ci = thetas c ! i)"
proof -
  let ?c0 = "\<lparr>state = s0, thetas = [], rng = g\<rparr>"
  have run: "loop p (nat n) ?c0 = Inr c"
    using assms(2) by (simp add: mcmc_def)
  from loop_records [OF run] have len: "length (thetas c) = nat n"
    by auto
  have each: "\<exists>ci. mcmc p (int (Suc i)) s0 g = Inr ci \<and>
            thetas ci = take (Suc i) (thetas c) \<and> state ci = thetas c ! i" if "i < nat n" for i
  proof -
    from that have "nat n = Suc i + (nat n - Suc i)"
      by simp
    then have "loop p (Suc i + (nat n - Suc i)) ?c0 = Inr c"
      using run by simp
    then obtain ci where pre: "loop p (Suc i) ?c0 = Inr ci"
      and post: "loop p (nat n - Suc i) ci = Inr c"
      unfolding loop_split by (auto split: sum.splits)
    from loop_records [OF pre] obtain xs where
      xs: "thetas ci = xs" "length xs = Suc i" "last xs = state ci"
      by auto
    from loop_records [OF post] obtain ys where ys: "thetas c = thetas ci @ ys"
      by blast
    have "take (Suc i) (thetas c) = thetas ci"
      using xs ys by simp
    moreover have "thetas c ! i = state ci"
    proof -
      have "thetas c ! i = xs ! i"
        using xs ys by (simp add: nth_append)
      also have "\<dots> = last xs"
        using xs(2) by (cases xs rule: rev_cases) (auto simp: nth_append)
      finally show ?thesis using xs(3) by simp
    qed
    moreover have "mcmc p (int (Suc i)) s0 g = Inr ci"
      using pre by (simp only: mcmc_def nat_int)
    ultimately show ?thesis by simp
  qed
  from len each show ?thesis by blast
qed

theorem mcmc_records_each_state_witness:
  "(0::int) \<le> 3 \<and>
   mcmc notebook_params 3 0 \<lparr>draws = (\<lambda>i. 1 / 2), pos = 0\<rparr> =
     Inr \<lparr>state = 1, thetas = [1, 0, 1], rng = \<lparr>draws = (\<lambda>i. 1 / 2), pos = 2\<rparr>\<rparr> \<and>
   length [1, 0, 1 :: int] = nat 3 \<and>
   (\<exists>ci. mcmc notebook_params 2 0 \<lparr>draws = (\<lambda>i. 1 / 2), pos = 0\<rparr> = Inr ci \<and>
      thetas ci = take 2 [1, 0, 1] \<and> state ci = [1, 0, 1] ! 1)"
proof -
  have h: "(0::int) \<le> 3" by simp
  have i: "Suc 0 < nat 3" by simp
  note each = mcmc_records_each_state [OF h notebook_run_3, THEN conjunct2, THEN spec,
      of "Suc 0", THEN mp, OF i]
  note len = mcmc_records_each_state [OF h notebook_run_3, THEN conjunct1]
  from each len show ?thesis
    using notebook_run_3 by (simp add: eval_nat_numeral)
qed


subsection \<open>Detailed balance\<close>

text \<open>
  For a draw \<open>u < 1\<close>, the iteration accepts the proposal exactly when
  \<open>u \<le> T(s \<rightarrow> s')\<close>: this is the sense in which \<open>transition_prob\<close> is the probability
  implied by the code's accept/reject branches.
\<close>

lemma accepts_iff_below_transition_prob:
  assumes "state c = 0 \<or> state c = 1"
    and "iteration p c = Inr c'"
    and "transition_prob p (state c) (1 - state c) = Inr t"
    and "draws (rng c) (pos (rng c)) < 1"
  shows "state c' = 1 - state c \<longleftrightarrow> draws (rng c) (pos (rng c)) \<le> t"
  using assms
  by (auto simp: iteration_def transition_prob_def Let_def uniform_def
      split: sum.splits if_splits)

lemma balance_arith:
  fixes a b :: real
  assumes "0 < a" and "0 < b"
  shows "a / (a + b) * min 1 (b / a) = b / (a + b) * min 1 (a / b)"
proof (cases "a \<le> b")
  case True
  with assms have "min 1 (b / a) = 1" "min 1 (a / b) = a / b"
    by (simp_all add: min_def le_divide_eq divide_le_eq)
  with assms show ?thesis by simp
next
  case False
  with assms have "min 1 (b / a) = b / a" "min 1 (a / b) = 1"
    by (simp_all add: min_def le_divide_eq divide_le_eq)
  with assms show ?thesis by simp
qed

text \<open>
  C2. For all priors and likelihoods with both products \<open>likelihood * prior\<close> positive,
  the posterior computed analytically and the transition probabilities
  \<open>T(s \<rightarrow> s') = min(1, \<alpha>)\<close> satisfy detailed balance:
  \<open>\<pi>(fair) * T(fair \<rightarrow> loaded) = \<pi>(loaded) * T(loaded \<rightarrow> fair)\<close>.
\<close>

theorem detailed_balance:
  assumes "0 < likelihood_if_fair p * prior_fair p"
    and "0 < likelihood_if_loaded p * prior_loaded p"
  shows "\<exists>pi_fair pi_loaded t_fair_loaded t_loaded_fair.
           posterior_fair p = Inr pi_fair \<and> posterior_loaded p = Inr pi_loaded \<and>
           transition_prob p 0 1 = Inr t_fair_loaded \<and>
           transition_prob p 1 0 = Inr t_loaded_fair \<and>
           pi_fair * t_fair_loaded = pi_loaded * t_loaded_fair"
proof -
  let ?a = "likelihood_if_fair p * prior_fair p"
  let ?b = "likelihood_if_loaded p * prior_loaded p"
  have a: "?a \<noteq> 0" and b: "?b \<noteq> 0" and ab: "?a + ?b \<noteq> 0"
    using assms by (metis order_less_irrefl, metis order_less_irrefl, metis add_pos_pos order_less_irrefl)
  have pf: "posterior_fair p = Inr (?a / (?a + ?b))"
    using ab by (simp only: posterior_fair_def denom_def truediv_def if_False)
  have pl: "posterior_loaded p = Inr (?b / (?a + ?b))"
    using ab by (simp only: posterior_loaded_def denom_def truediv_def if_False)
  have t01: "transition_prob p 0 1 = Inr (min 1 (?b / ?a))"
    using a by (simp add: transition_prob_def get_alpha_def truediv_def)
  have t10: "transition_prob p 1 0 = Inr (min 1 (?a / ?b))"
    using b by (simp add: transition_prob_def get_alpha_def truediv_def)
  from pf pl t01 t10 balance_arith [OF assms] show ?thesis
    by blast
qed

theorem detailed_balance_witness:
  "0 < likelihood_if_fair notebook_params * prior_fair notebook_params \<and>
   0 < likelihood_if_loaded notebook_params * prior_loaded notebook_params \<and>
   posterior_fair notebook_params = Inr (62500 / 102190) \<and>
   posterior_loaded notebook_params = Inr (39690 / 102190) \<and>
   transition_prob notebook_params 0 1 = Inr (7938 / 12500) \<and>
   transition_prob notebook_params 1 0 = Inr 1 \<and>
   (62500 / 102190) * (7938 / 12500) = (39690 / 102190) * (1 :: real)"
proof -
  have h1: "0 < likelihood_if_fair notebook_params * prior_fair notebook_params"
    by (simp add: notebook_values)
  have h2: "0 < likelihood_if_loaded notebook_params * prior_loaded notebook_params"
    by (simp add: notebook_values)
  have v: "posterior_fair notebook_params = Inr (62500 / 102190)"
    "posterior_loaded notebook_params = Inr (39690 / 102190)"
    "transition_prob notebook_params 0 1 = Inr (7938 / 12500)"
    "transition_prob notebook_params 1 0 = Inr 1"
    by (simp_all add: posterior_fair_def posterior_loaded_def denom_def truediv_def
        transition_prob_def get_alpha_def notebook_values)
  from detailed_balance [OF h1 h2] h1 h2 v show ?thesis
    by simp
qed

subsection \<open>Stationarity of the hard-coded vector\<close>

text \<open>
  C9. The product of the analytical posterior vector \<open>(0.61161, 0.38839)\<close> with the
  matrix \<open>((0.365, 0.635), (1, 0))\<close> is \<open>(0.61162765, 0.38837235)\<close>, the value the
  notebook prints, and differs from the vector by less than \<open>0.001\<close> in each component.
\<close>

theorem posterior_stationary:
  "pi_P = [61162765 / 100000000, 38837235 / 100000000] \<and>
   length pi_P = length pi_a \<and>
   \<bar>pi_P ! 0 - pi_a ! 0\<bar> \<le> 1 / 1000 \<and>
   \<bar>pi_P ! 1 - pi_a ! 1\<bar> \<le> 1 / 1000"
  by (simp add: pi_P_def matmul_def pi_a_def P_def)

subsection \<open>Failure conditions\<close>

text \<open>
  C6, as stated, fails: a negative prior is not rejected (the run of one iteration below
  returns a trace), and an iteration count of \<open>0\<close> or \<open>-5\<close> returns the empty trace
  instead of failing.
\<close>

theorem no_input_validation_counterexample:
  "(let p = \<lparr>likelihood_if_fair = 1, prior_fair = - 1, likelihood_if_loaded = 1, prior_loaded = 2\<rparr>;
        g = \<lparr>draws = (\<lambda>i. 1 / 2), pos = 0\<rparr>
    in prior_fair p < 0 \<and>
       mcmc p 1 0 g = Inr \<lparr>state = 0, thetas = [0], rng = \<lparr>draws = (\<lambda>i. 1 / 2), pos = 1\<rparr>\<rparr> \<and>
       mcmc p 0 0 g = Inr \<lparr>state = 0, thetas = [], rng = g\<rparr> \<and>
       mcmc p (- 5) 0 g = Inr \<lparr>state = 0, thetas = [], rng = g\<rparr>)"
  by (simp add: Let_def mcmc_def iteration_def get_alpha_def truediv_def uniform_def)

text \<open>
  With both products non-zero no division in a run has a zero divisor, so every
  iteration returns.
\<close>

lemma iteration_succeeds:
  assumes "likelihood_if_fair p * prior_fair p \<noteq> 0"
    and "likelihood_if_loaded p * prior_loaded p \<noteq> 0"
  shows "\<exists>c'. iteration p c = Inr c'"
  using assms by (simp add: iteration_def get_alpha_def truediv_def uniform_def Let_def)

lemma loop_succeeds:
  assumes "likelihood_if_fair p * prior_fair p \<noteq> 0"
    and "likelihood_if_loaded p * prior_loaded p \<noteq> 0"
  shows "\<exists>c'. loop p k c = Inr c'"
proof (induction k arbitrary: c)
  case 0
  show ?case by simp
next
  case (Suc k)
  from iteration_succeeds [OF assms] obtain c1 where "iteration p c = Inr c1"
    by blast
  with Suc.IH [of c1] show ?case by simp
qed

text \<open>
  C6, amended. The sampler validates nothing and reports no invalid-input error. An
  iteration count \<open>\<le> 0\<close> returns the empty trace without error, for every choice of
  priors and likelihoods. Negative priors or likelihoods are not rejected: whenever both
  products \<open>likelihood * prior\<close> are non-zero, of whatever sign, the run returns a trace
  with one sample per iteration. Nothing is said about a zero product: what a zero
  divisor does depends on the number type (plain Python numbers raise, the notebook's
  numpy scalars yield \<open>inf\<close> or \<open>nan\<close> and the run goes on), and neither is an
  invalid-input check.
\<close>

theorem mcmc_validates_nothing:
  "(n \<le> 0 \<longrightarrow> mcmc p n s0 g = Inr \<lparr>state = s0, thetas = [], rng = g\<rparr>) \<and>
   (likelihood_if_fair p * prior_fair p \<noteq> 0 \<and> likelihood_if_loaded p * prior_loaded p \<noteq> 0 \<longrightarrow>
      (\<exists>c. mcmc p n s0 g = Inr c \<and> length (thetas c) = nat n))"
proof (intro conjI impI)
  assume "n \<le> 0"
  then show "mcmc p n s0 g = Inr \<lparr>state = s0, thetas = [], rng = g\<rparr>"
    by (simp add: mcmc_def)
next
  let ?c0 = "\<lparr>state = s0, thetas = [], rng = g\<rparr>"
  assume nz: "likelihood_if_fair p * prior_fair p \<noteq> 0 \<and>
    likelihood_if_loaded p * prior_loaded p \<noteq> 0"
  then obtain c where run: "loop p (nat n) ?c0 = Inr c"
    using loop_succeeds [of p "nat n" ?c0] by blast
  from loop_records [OF run] have "length (thetas c) = nat n"
    by auto
  with run show "\<exists>c. mcmc p n s0 g = Inr c \<and> length (thetas c) = nat n"
    by (simp add: mcmc_def)
qed

theorem mcmc_validates_nothing_witness:
  "(let p0 = \<lparr>likelihood_if_fair = 0, prior_fair = 2 / 5, likelihood_if_loaded = 0,
               prior_loaded = 3 / 5\<rparr>;
        p1 = \<lparr>likelihood_if_fair = 1, prior_fair = - 1, likelihood_if_loaded = 1,
               prior_loaded = 2\<rparr>;
        g = \<lparr>draws = (\<lambda>i. 1 / 2), pos = 0\<rparr>
    in (- 1 :: int) \<le> 0 \<and>
       mcmc p0 (- 1) 1 g = Inr \<lparr>state = 1, thetas = [], rng = g\<rparr> \<and>
       likelihood_if_fair p1 * prior_fair p1 \<noteq> 0 \<and>
       likelihood_if_loaded p1 * prior_loaded p1 \<noteq> 0 \<and>
       (\<exists>c. mcmc p1 10000 1 g = Inr c \<and> length (thetas c) = nat 10000))"
  using mcmc_validates_nothing [of "- 1" "\<lparr>likelihood_if_fair = 0, prior_fair = 2 / 5,
      likelihood_if_loaded = 0, prior_loaded = 3 / 5\<rparr>" 1 "\<lparr>draws = (\<lambda>i. 1 / 2), pos = 0\<rparr>"]
    mcmc_validates_nothing [of 10000 "\<lparr>likelihood_if_fair = 1, prior_fair = - 1,
      likelihood_if_loaded = 1, prior_loaded = 2\<rparr>" 1 "\<lparr>draws = (\<lambda>i. 1 / 2), pos = 0\<rparr>"]
  by (simp add: Let_def)

end
